theory Spec2Isabelle
  imports Main
begin

section \<open>The routing engine of package comm (pkg/comm/engine.go)\<close>

text \<open>
  The engine moves messages through three buffered channels. Each handler that the
  dispatch loop calls starts one goroutine; the body of that goroutine is modelled as
  the list of the effects it performs, in program order. A step relation over the state
  of the engine then interleaves the dispatch loop, the listeners and the goroutines.

  A Go \<^verbatim>\<open>string\<close> is a sequence of bytes, and so is a \<^typ>\<open>string\<close> here
  (a list of 8-bit \<^typ>\<open>char\<close>).
\<close>

subsection \<open>Messages\<close>

text \<open>Fields carry a prefix naming their struct, because several structs share field names.\<close>

record RawIngressMessage =
  rim_Identity :: string
  rim_ChannelID :: string
  rim_RawContent :: string

record Originator =
  org_Identity :: string
  org_ChannelID :: string
  org_AdapterName :: string

record IngressMessage =
  im_Originator :: Originator
  im_Content :: string

record EgressMessage =
  em_ChannelID :: string
  em_Content :: string

text \<open>The buffer messages of engine.go, lines 108 to 125.\<close>

record rawIngressBufferMsg =
  rbm_AdapterName :: string
  rbm_RawIngressMessage :: RawIngressMessage

record ingressBufferMsg =
  ibm_IngressMessage :: IngressMessage

record egressBufferMsg =
  ebm_Originator :: Originator
  ebm_EgressMessage :: EgressMessage

subsection \<open>Extensions\<close>

text \<open>
  Modelled from the spec: the struct \<^verbatim>\<open>CmdDelegate\<close> and its constructor
  \<^verbatim>\<open>NewCmdDelegate\<close> are declared outside engine.go. The spec describes the delegate as
  the per-invocation object holding the originating message, the submatches and the
  response accumulator; engine.go reads its field \<^verbatim>\<open>response\<close> after the handler returns.
\<close>

record CmdDelegate =
  cd_IngressMessage :: IngressMessage
  cd_Submatches :: "string list"
  response :: string

definition NewCmdDelegate :: "IngressMessage \<Rightarrow> string list \<Rightarrow> CmdDelegate" where
  "NewCmdDelegate im subm =
     \<lparr>cd_IngressMessage = im, cd_Submatches = subm, response = []\<rparr>"

text \<open>
  A handler \<^verbatim>\<open>CmdFn\<close> receives a pointer to the delegate and returns nothing; it answers
  by writing into the delegate. It is plugin code: the model takes it as the function from
  the delegate it is given to the delegate it leaves behind, so a handler is taken to return.

  A compiled \<^verbatim>\<open>*regexp.Regexp\<close> belongs to Go's library. engine.go only calls
  \<^verbatim>\<open>FindStringSubmatch\<close> on it, so the model keeps a regular expression as that function:
  the empty list stands for the nil slice that Go returns when nothing matches.
\<close>

type_synonym CmdFn = "CmdDelegate \<Rightarrow> CmdDelegate"

record CmdLink =
  FindStringSubmatch :: "string \<Rightarrow> string list"
  cl_CmdFn :: CmdFn

text \<open>
  A plugin's \<^verbatim>\<open>CmdManifest\<close> is ranged over with a key \<^verbatim>\<open>cmdName\<close> and a value
  \<^verbatim>\<open>cmdLink\<close>. The list holds its entries in the order in which the range visits them.
\<close>

record Plugin =
  plg_Name :: string
  CmdManifest :: "(string \<times> CmdLink) list"

text \<open>
  \<^verbatim>\<open>Adapter\<close> is an interface with the methods \<^verbatim>\<open>Name\<close>, \<^verbatim>\<open>Listen\<close> and
  \<^verbatim>\<open>SendMessage\<close>. The model keeps what \<^verbatim>\<open>Name()\<close> returns and a number that tells
  apart the dynamic values behind the interface.
\<close>

record Adapter =
  adp_Name :: string
  adp_Instance :: nat

record cmdMatch =
  cm_CmdFn :: CmdFn
  cm_Submatches :: "string list"

subsection \<open>Effects of a goroutine\<close>

datatype level = DebugLevel | InfoLevel | WarnLevel

datatype log_arg = ArgIngressMessage IngressMessage | ArgEgressBufferMsg egressBufferMsg

datatype panic = IndexOutOfRange | SliceBoundsOutOfRange | NilDereference

text \<open>
  \<open>Logged l s args\<close> is one call of the logger at level \<open>l\<close> with message or format \<open>s\<close>;
  \<open>IngressSend\<close> and \<open>EgressSend\<close> are sends on the engine's channels;
  \<open>HandlerCall d\<close> is one call of a plugin handler that returned leaving the delegate \<open>d\<close>;
  \<open>SendMessageCall a m\<close> is a call of \<^verbatim>\<open>SendMessage\<close> on the adapter \<open>a\<close>;
  \<open>Panicked p\<close> is a run-time panic, after which the goroutine does nothing more.
\<close>

datatype effect =
    Logged level string "log_arg list"
  | IngressSend ingressBufferMsg
  | EgressSend egressBufferMsg
  | HandlerCall CmdDelegate
  | SendMessageCall Adapter EgressMessage
  | Panicked panic

fun isIngressSend :: "effect \<Rightarrow> bool" where
  "isIngressSend (IngressSend m) = True"
| "isIngressSend e = False"

fun isEgressSend :: "effect \<Rightarrow> bool" where
  "isEgressSend (EgressSend m) = True"
| "isEgressSend e = False"


fun isPanic :: "effect \<Rightarrow> bool" where
  "isPanic (Panicked p) = True"
| "isPanic e = False"

fun isHandlerCall :: "effect \<Rightarrow> bool" where
  "isHandlerCall (HandlerCall d) = True"
| "isHandlerCall e = False"

fun isSendMessageCall :: "effect \<Rightarrow> bool" where
  "isSendMessageCall (SendMessageCall a m) = True"
| "isSendMessageCall e = False"

subsection \<open>Raw ingress: filtering and parsing\<close>

text \<open>
  The conversion \<^verbatim>\<open>string(b)\<close> of a byte \<open>b\<close>. Go converts an integer to the UTF-8
  encoding of the code point with that value: one byte below 0x80, and the two bytes
  \<^verbatim>\<open>0xC0 | b>>6\<close>, \<^verbatim>\<open>0x80 | b&0x3F\<close> from 0x80 to 0xFF.
\<close>

definition stringOfByte :: "char \<Rightarrow> string" where
  "stringOfByte b =
     (let r = (of_char b :: nat)
      in if r < 128 then [b]
         else [char_of (192 + r div 64), char_of (128 + r mod 64)])"

text \<open>
  \<^verbatim>\<open>rawContent[1:len(rawContent)]\<close>: the slice expression panics when the low bound 1
  exceeds the length.
\<close>

definition parseRawContent :: "string \<Rightarrow> panic + string" where
  "parseRawContent rawContent =
     (if 1 \<le> length rawContent then Inr (drop 1 (take (length rawContent) rawContent))
      else Inl SliceBoundsOutOfRange)"

text \<open>
  The body of the goroutine of \<^verbatim>\<open>handleRawIngress\<close>. The classifier \<^verbatim>\<open>isCmd\<close> and the
  constant \<^verbatim>\<open>adapterCmdTriggerPrefix\<close> are declared outside engine.go and are parameters.
  \<^verbatim>\<open>rm.RawContent[0]\<close> panics on the empty string.
\<close>

definition handleRawIngress ::
  "(string \<Rightarrow> bool) \<Rightarrow> string \<Rightarrow> rawIngressBufferMsg \<Rightarrow> effect list" where
  "handleRawIngress isCmd adapterCmdTriggerPrefix m =
     (let adapterName = rbm_AdapterName m;
          rm = rbm_RawIngressMessage m
      in if \<not> isCmd (rim_RawContent rm) then []
         else if \<not> 0 < length (rim_RawContent rm) then [Panicked IndexOutOfRange]
         else if stringOfByte (rim_RawContent rm ! 0) \<noteq> adapterCmdTriggerPrefix then
           [Logged WarnLevel
              ''raw content was flagged as a command, but does not contain trigger prefix, skipping...''
              [],
            Logged WarnLevel (rim_RawContent rm) []]
         else
           (case parseRawContent (rim_RawContent rm) of
              Inl p \<Rightarrow> [Panicked p]
            | Inr content \<Rightarrow>
                [IngressSend
                   \<lparr>ibm_IngressMessage =
                      \<lparr>im_Originator =
                         \<lparr>org_Identity = rim_Identity rm,
                          org_ChannelID = rim_ChannelID rm,
                          org_AdapterName = adapterName\<rparr>,
                       im_Content = content\<rparr>\<rparr>]))"

text \<open>Two classifiers and a message, used to run the definitions on concrete input.\<close>

definition flagsEverything :: "string \<Rightarrow> bool" where
  "flagsEverything rawContent = True"

definition flagsBang :: "string \<Rightarrow> bool" where
  "flagsBang rawContent = (take 1 rawContent = ''!'')"

definition rawWith :: "string \<Rightarrow> rawIngressBufferMsg" where
  "rawWith content =
     \<lparr>rbm_AdapterName = ''discord'',
      rbm_RawIngressMessage =
        \<lparr>rim_Identity = ''erik'', rim_ChannelID = ''general'', rim_RawContent = content\<rparr>\<rparr>"

subsection \<open>The engine\<close>

text \<open>
  A buffered channel \<^verbatim>\<open>make(chan T, n)\<close>: its capacity and the messages waiting in it,
  oldest first.
\<close>

record 'a chan =
  chan_cap :: nat
  chan_queue :: "'a list"

definition make_chan :: "nat \<Rightarrow> 'a chan" where
  "make_chan n = \<lparr>chan_cap = n, chan_queue = []\<rparr>"

definition canSend :: "'a chan \<Rightarrow> bool" where
  "canSend ch = (length (chan_queue ch) < chan_cap ch)"

definition push :: "'a chan \<Rightarrow> 'a \<Rightarrow> 'a chan" where
  "push ch m = ch\<lparr>chan_queue := chan_queue ch @ [m]\<rparr>"

record Engine =
  rawIngressBuffer :: "rawIngressBufferMsg chan"
  ingressBuffer :: "ingressBufferMsg chan"
  egressBuffer :: "egressBufferMsg chan"
  plugins :: "string \<rightharpoonup> Plugin"
  adapters :: "string \<rightharpoonup> Adapter"

text \<open>
  Package config is outside engine.go. The model keeps the values that engine.go reads
  from it: the buffer size and, for plugins and for adapters, the directory and the list
  of enabled names. An \<open>error\<close> is the message it carries.
\<close>

type_synonym error = string

record ExtensionConf =
  Dir :: string
  Enabled :: "string list"

record Config =
  BufferSize :: nat
  GetPlugin :: ExtensionConf
  GetAdapter :: ExtensionConf

text \<open>
  What the engine calls outside engine.go while it loads: \<^verbatim>\<open>config.New\<close>,
  \<^verbatim>\<open>filepath.Join\<close>, \<^verbatim>\<open>LoadPlugin\<close> and \<^verbatim>\<open>LoadAdapter\<close>. They are parameters of the
  model. A Go result \<^verbatim>\<open>(v, err)\<close> is \<open>Inr v\<close> when \<^verbatim>\<open>err\<close> is nil and \<open>Inl err\<close> otherwise.
\<close>

record External =
  configNew :: "error + Config"
  filepathJoin :: "string \<Rightarrow> string \<Rightarrow> string"
  LoadPlugin :: "string \<Rightarrow> error + Plugin"
  LoadAdapter :: "string \<Rightarrow> error + Adapter"

text \<open>\<^verbatim>\<open>NewEngine\<close> panics with the error of \<^verbatim>\<open>config.New\<close>; \<open>Inl\<close> carries that error.\<close>

definition NewEngine :: "External \<Rightarrow> error + Engine" where
  "NewEngine x =
     (case configNew x of
        Inl err \<Rightarrow> Inl err
      | Inr c \<Rightarrow>
          (let bufferSize = BufferSize c
           in Inr \<lparr>rawIngressBuffer = make_chan bufferSize,
                   ingressBuffer = make_chan bufferSize,
                   egressBuffer = make_chan bufferSize,
                   plugins = Map.empty,
                   adapters = Map.empty\<rparr>))"

subsection \<open>Ranging over a map\<close>

text \<open>
  Go leaves the order of a \<^verbatim>\<open>range\<close> over a map unspecified. A function that ranges over
  a map takes the order in which the keys are visited as an argument; \<open>rangeOrder\<close> says
  that the argument lists every key of the map once.
\<close>

definition rangeOrder :: "('k \<rightharpoonup> 'v) \<Rightarrow> 'k list \<Rightarrow> bool" where
  "rangeOrder m visit = (distinct visit \<and> set visit = dom m)"

definition rangeValues :: "('k \<rightharpoonup> 'v) \<Rightarrow> 'k list \<Rightarrow> 'v list" where
  "rangeValues m visit = List.map_filter m visit"

subsection \<open>Ingress: matching and dispatch\<close>

text \<open>The inner and the outer loop of \<^verbatim>\<open>applyCmdManifests\<close>; \<open>matches\<close> is the slice they append to.\<close>

fun rangeCmdManifest :: "cmdMatch list \<Rightarrow> (string \<times> CmdLink) list \<Rightarrow> string \<Rightarrow> cmdMatch list" where
  "rangeCmdManifest matches [] content = matches"
| "rangeCmdManifest matches ((cmdName, cmdLink) # rest) content =
     (let subm = FindStringSubmatch cmdLink content
      in rangeCmdManifest
           (if 0 < length subm
            then matches @ [\<lparr>cm_CmdFn = cl_CmdFn cmdLink, cm_Submatches = subm\<rparr>]
            else matches)
           rest content)"

fun rangePlugins :: "cmdMatch list \<Rightarrow> Plugin list \<Rightarrow> string \<Rightarrow> cmdMatch list" where
  "rangePlugins matches [] content = matches"
| "rangePlugins matches (plugin # rest) content =
     rangePlugins (rangeCmdManifest matches (CmdManifest plugin) content) rest content"

definition applyCmdManifests :: "Engine \<Rightarrow> string list \<Rightarrow> string \<Rightarrow> cmdMatch list" where
  "applyCmdManifests e visit content =
     rangePlugins [] (rangeValues (plugins e) visit) content"

text \<open>The loop of \<^verbatim>\<open>handleIngress\<close> over the matches.\<close>

fun rangeCmdMatches :: "IngressMessage \<Rightarrow> cmdMatch list \<Rightarrow> effect list" where
  "rangeCmdMatches im [] = []"
| "rangeCmdMatches im (cmdMatch # rest) =
     (let delegate = cm_CmdFn cmdMatch (NewCmdDelegate im (cm_Submatches cmdMatch))
      in HandlerCall delegate #
         (if response delegate \<noteq> []
          then [EgressSend
                  \<lparr>ebm_Originator = im_Originator im,
                   ebm_EgressMessage =
                     \<lparr>em_ChannelID = org_ChannelID (im_Originator im),
                      em_Content = response delegate\<rparr>\<rparr>]
          else []) @
         rangeCmdMatches im rest)"

text \<open>
  \<^verbatim>\<open>handleIngress\<close>: the debug line it logs, then the body of its goroutine. \<open>visit\<close> is
  the order in which \<^verbatim>\<open>applyCmdManifests\<close> ranges over the plugins.
\<close>

definition handleIngress :: "Engine \<Rightarrow> string list \<Rightarrow> ingressBufferMsg \<Rightarrow> effect list" where
  "handleIngress e visit ibm =
     (let im = ibm_IngressMessage ibm
      in Logged DebugLevel ''Engine::handleIngress: %+v'' [ArgIngressMessage im] #
         rangeCmdMatches im (applyCmdManifests e visit (im_Content im)))"

subsection \<open>Egress\<close>

text \<open>
  \<^verbatim>\<open>handleEgress\<close>: the debug line, then the goroutine. Indexing the map with a name that
  is not registered gives the nil interface, and the call of \<^verbatim>\<open>SendMessage\<close> on it panics.
\<close>

definition handleEgress :: "Engine \<Rightarrow> egressBufferMsg \<Rightarrow> effect list" where
  "handleEgress e ebm =
     Logged DebugLevel ''Engine::handleEgress: %+v'' [ArgEgressBufferMsg ebm] #
     (case adapters e (org_AdapterName (ebm_Originator ebm)) of
        None \<Rightarrow> [Panicked NilDereference]
      | Some adapter \<Rightarrow> [SendMessageCall adapter (ebm_EgressMessage ebm)])"

subsection \<open>Loading extensions\<close>

text \<open>
  The loops of \<^verbatim>\<open>loadPlugins\<close> and \<^verbatim>\<open>loadAdapters\<close> over the enabled names. A load error
  returns at once, and the engine keeps what was stored before it. The result pairs the
  engine with the error returned (\<open>None\<close> for nil). The lines the loaders log are left out.
\<close>

fun rangeEnabledPlugins ::
  "External \<Rightarrow> string \<Rightarrow> Engine \<Rightarrow> string list \<Rightarrow> Engine \<times> error option" where
  "rangeEnabledPlugins x dir e [] = (e, None)"
| "rangeEnabledPlugins x dir e (pluginName # rest) =
     (let pluginFile = filepathJoin x dir (pluginName @ ''.so'')
      in case LoadPlugin x pluginFile of
           Inl err \<Rightarrow> (e, Some err)
         | Inr loadedPlugin \<Rightarrow>
             rangeEnabledPlugins x dir
               (e\<lparr>plugins := (plugins e)(plg_Name loadedPlugin \<mapsto> loadedPlugin)\<rparr>) rest)"

definition loadPlugins :: "External \<Rightarrow> Engine \<Rightarrow> Engine \<times> error option" where
  "loadPlugins x e =
     (case configNew x of
        Inl err \<Rightarrow> (e, Some err)
      | Inr c \<Rightarrow>
          (let plugConf = GetPlugin c
           in rangeEnabledPlugins x (Dir plugConf) e (Enabled plugConf)))"

fun rangeEnabledAdapters ::
  "External \<Rightarrow> string \<Rightarrow> Engine \<Rightarrow> string list \<Rightarrow> Engine \<times> error option" where
  "rangeEnabledAdapters x dir e [] = (e, None)"
| "rangeEnabledAdapters x dir e (adapterName # rest) =
     (let adapterFile = filepathJoin x dir (adapterName @ ''.so'')
      in case LoadAdapter x adapterFile of
           Inl err \<Rightarrow> (e, Some err)
         | Inr loadedAdapter \<Rightarrow>
             rangeEnabledAdapters x dir
               (e\<lparr>adapters := (adapters e)(adp_Name loadedAdapter \<mapsto> loadedAdapter)\<rparr>) rest)"

definition loadAdapters :: "External \<Rightarrow> Engine \<Rightarrow> Engine \<times> error option" where
  "loadAdapters x e =
     (case configNew x of
        Inl err \<Rightarrow> (e, Some err)
      | Inr c \<Rightarrow>
          (let adapterConf = GetAdapter c
           in rangeEnabledAdapters x (Dir adapterConf) e (Enabled adapterConf)))"

definition LoadExtensions :: "External \<Rightarrow> Engine \<Rightarrow> Engine \<times> error option" where
  "LoadExtensions x e =
     (case loadPlugins x e of
        (e', Some err) \<Rightarrow> (e', Some err)
      | (e', None) \<Rightarrow> loadAdapters x e')"

subsection \<open>The run phase: \<^verbatim>\<open>Start\<close>\<close>

text \<open>
  The state of a running engine: the engine, the adapters whose listener goroutines
  \<^verbatim>\<open>Start\<close> has spawned, the effects each handler goroutine has still to perform, the
  effects performed so far, and the panic that ended the process, if any.
\<close>

record World =
  engine :: Engine
  listeners :: "Adapter list"
  goroutines :: "effect list list"
  history :: "effect list"
  crashed :: "panic option"

text \<open>
  \<^verbatim>\<open>Start\<close> logs a debug line, ranges over the adapters in the order \<open>visit\<close> and
  spawns a listener for each; then it enters the dispatch loop, whose steps follow.
\<close>

definition Start :: "Engine \<Rightarrow> string list \<Rightarrow> World" where
  "Start e visit =
     \<lparr>engine = e, listeners = rangeValues (adapters e) visit, goroutines = [],
      history = [Logged DebugLevel ''Engine::Start'' []], crashed = None\<rparr>"

definition spawn :: "World \<Rightarrow> effect list \<Rightarrow> World" where
  "spawn w effects = w\<lparr>goroutines := goroutines w @ [effects]\<rparr>"

text \<open>Goroutine \<open>i\<close> performs its next effect.\<close>

definition advance :: "World \<Rightarrow> nat \<Rightarrow> World" where
  "advance w i =
     w\<lparr>goroutines := (goroutines w)[i := tl (goroutines w ! i)],
       history := history w @ [hd (goroutines w ! i)]\<rparr>"

definition nextEffect :: "World \<Rightarrow> nat \<Rightarrow> effect option" where
  "nextEffect w i =
     (if i < length (goroutines w)
      then (case goroutines w ! i of [] \<Rightarrow> None | eff # rest \<Rightarrow> Some eff)
      else None)"

definition sendRawIngress :: "World \<Rightarrow> rawIngressBufferMsg \<Rightarrow> World" where
  "sendRawIngress w m =
     w\<lparr>engine := (engine w)\<lparr>rawIngressBuffer := push (rawIngressBuffer (engine w)) m\<rparr>\<rparr>"

definition sendIngress :: "World \<Rightarrow> ingressBufferMsg \<Rightarrow> World" where
  "sendIngress w m =
     w\<lparr>engine := (engine w)\<lparr>ingressBuffer := push (ingressBuffer (engine w)) m\<rparr>\<rparr>"

definition sendEgress :: "World \<Rightarrow> egressBufferMsg \<Rightarrow> World" where
  "sendEgress w m =
     w\<lparr>engine := (engine w)\<lparr>egressBuffer := push (egressBuffer (engine w)) m\<rparr>\<rparr>"

text \<open>The three receives of the \<^verbatim>\<open>select\<close>: the oldest message leaves the queue.\<close>

definition recvRawIngress :: "World \<Rightarrow> World" where
  "recvRawIngress w =
     w\<lparr>engine := (engine w)\<lparr>rawIngressBuffer :=
          (rawIngressBuffer (engine w))\<lparr>chan_queue := tl (chan_queue (rawIngressBuffer (engine w)))\<rparr>\<rparr>\<rparr>"

definition recvIngress :: "World \<Rightarrow> World" where
  "recvIngress w =
     w\<lparr>engine := (engine w)\<lparr>ingressBuffer :=
          (ingressBuffer (engine w))\<lparr>chan_queue := tl (chan_queue (ingressBuffer (engine w)))\<rparr>\<rparr>\<rparr>"

definition recvEgress :: "World \<Rightarrow> World" where
  "recvEgress w =
     w\<lparr>engine := (engine w)\<lparr>egressBuffer :=
          (egressBuffer (engine w))\<lparr>chan_queue := tl (chan_queue (egressBuffer (engine w)))\<rparr>\<rparr>\<rparr>"

text \<open>
  One step of the running engine, for a classifier and a trigger prefix.
  \<^item> \<open>Relay\<close>: a listener passes a message of its adapter on to the raw ingress buffer. The
    private channel between the adapter and its listener only delays the message and is
    left out. A send waits until the buffer has room.
  \<^item> \<open>SelectRawIngress\<close>, \<open>SelectIngress\<close>, \<open>SelectEgress\<close>: the dispatch loop receives from
    one of the buffers and calls the handler, which starts a goroutine.
  \<^item> \<open>GoIngressSend\<close>, \<open>GoEgressSend\<close>: a goroutine sends on a buffer that has room.
  \<^item> \<open>RelayDirect\<close>, \<open>GoIngressSendDirect\<close>, \<open>GoEgressSendDirect\<close>: on a channel of
    capacity 0 the sender hands the message to the dispatch loop as it receives.
  \<^item> \<open>GoEffect\<close>: a goroutine logs, calls a handler or calls \<^verbatim>\<open>SendMessage\<close>.
  \<^item> \<open>GoPanic\<close>: a goroutine panics, which ends the process: no step follows.
\<close>

inductive step :: "(string \<Rightarrow> bool) \<Rightarrow> string \<Rightarrow> World \<Rightarrow> World \<Rightarrow> bool"
  for isCmd :: "string \<Rightarrow> bool" and adapterCmdTriggerPrefix :: string where
  Relay:
    "crashed w = None \<Longrightarrow> adapter \<in> set (listeners w) \<Longrightarrow>
     canSend (rawIngressBuffer (engine w)) \<Longrightarrow>
     step isCmd adapterCmdTriggerPrefix w
       (sendRawIngress w \<lparr>rbm_AdapterName = adp_Name adapter, rbm_RawIngressMessage = rim\<rparr>)"
| RelayDirect:
    "crashed w = None \<Longrightarrow> adapter \<in> set (listeners w) \<Longrightarrow>
     chan_cap (rawIngressBuffer (engine w)) = 0 \<Longrightarrow>
     step isCmd adapterCmdTriggerPrefix w
       (spawn w (handleRawIngress isCmd adapterCmdTriggerPrefix
                   \<lparr>rbm_AdapterName = adp_Name adapter, rbm_RawIngressMessage = rim\<rparr>))"
| SelectRawIngress:
    "crashed w = None \<Longrightarrow> chan_queue (rawIngressBuffer (engine w)) = m # rest \<Longrightarrow>
     step isCmd adapterCmdTriggerPrefix w
       (spawn (recvRawIngress w) (handleRawIngress isCmd adapterCmdTriggerPrefix m))"
| SelectIngress:
    "crashed w = None \<Longrightarrow> chan_queue (ingressBuffer (engine w)) = m # rest \<Longrightarrow>
     rangeOrder (plugins (engine w)) visit \<Longrightarrow>
     step isCmd adapterCmdTriggerPrefix w
       (spawn (recvIngress w) (handleIngress (engine w) visit m))"
| SelectEgress:
    "crashed w = None \<Longrightarrow> chan_queue (egressBuffer (engine w)) = m # rest \<Longrightarrow>
     step isCmd adapterCmdTriggerPrefix w
       (spawn (recvEgress w) (handleEgress (engine w) m))"
| GoIngressSend:
    "crashed w = None \<Longrightarrow> nextEffect w i = Some (IngressSend m) \<Longrightarrow>
     canSend (ingressBuffer (engine w)) \<Longrightarrow>
     step isCmd adapterCmdTriggerPrefix w (sendIngress (advance w i) m)"
| GoIngressSendDirect:
    "crashed w = None \<Longrightarrow> nextEffect w i = Some (IngressSend m) \<Longrightarrow>
     chan_cap (ingressBuffer (engine w)) = 0 \<Longrightarrow>
     rangeOrder (plugins (engine w)) visit \<Longrightarrow>
     step isCmd adapterCmdTriggerPrefix w
       (spawn (advance w i) (handleIngress (engine w) visit m))"
| GoEgressSend:
    "crashed w = None \<Longrightarrow> nextEffect w i = Some (EgressSend m) \<Longrightarrow>
     canSend (egressBuffer (engine w)) \<Longrightarrow>
     step isCmd adapterCmdTriggerPrefix w (sendEgress (advance w i) m)"
| GoEgressSendDirect:
    "crashed w = None \<Longrightarrow> nextEffect w i = Some (EgressSend m) \<Longrightarrow>
     chan_cap (egressBuffer (engine w)) = 0 \<Longrightarrow>
     step isCmd adapterCmdTriggerPrefix w
       (spawn (advance w i) (handleEgress (engine w) m))"
| GoEffect:
    "crashed w = None \<Longrightarrow> nextEffect w i = Some eff \<Longrightarrow>
     \<not> isIngressSend eff \<Longrightarrow> \<not> isEgressSend eff \<Longrightarrow> \<not> isPanic eff \<Longrightarrow>
     step isCmd adapterCmdTriggerPrefix w (advance w i)"
| GoPanic:
    "crashed w = None \<Longrightarrow> nextEffect w i = Some (Panicked p) \<Longrightarrow>
     step isCmd adapterCmdTriggerPrefix w ((advance w i)\<lparr>crashed := Some p\<rparr>)"

text \<open>A run of the engine: any number of steps.\<close>

inductive run :: "(string \<Rightarrow> bool) \<Rightarrow> string \<Rightarrow> World \<Rightarrow> World \<Rightarrow> bool"
  for isCmd :: "string \<Rightarrow> bool" and adapterCmdTriggerPrefix :: string where
  run_refl: "run isCmd adapterCmdTriggerPrefix w w"
| run_step:
    "run isCmd adapterCmdTriggerPrefix w w' \<Longrightarrow> step isCmd adapterCmdTriggerPrefix w' w'' \<Longrightarrow>
     run isCmd adapterCmdTriggerPrefix w w''"

subsection \<open>Counting matches and replies\<close>

text \<open>
  What the claims count, in the words of the specification: a pattern matches a content
  when its search returns a non-empty slice (the test \<^verbatim>\<open>len(subm) > 0\<close>), a plugin
  contributes the matching entries of its manifest, and a handler call has replied when
  the delegate it leaves holds a non-empty response.
\<close>

definition patternMatches :: "CmdLink \<Rightarrow> string \<Rightarrow> bool" where
  "patternMatches cmdLink content = (0 < length (FindStringSubmatch cmdLink content))"

definition matchCount :: "Plugin \<Rightarrow> string \<Rightarrow> nat" where
  "matchCount plugin content =
     length (filter (\<lambda>(cmdName, cmdLink). patternMatches cmdLink content) (CmdManifest plugin))"

fun replied :: "effect \<Rightarrow> bool" where
  "replied (HandlerCall d) = (response d \<noteq> [])"
| "replied e = False"

subsection \<open>Concrete extensions\<close>

text \<open>
  A small installation on which the definitions are run: the search of an anchored literal
  pattern, a handler that replies and one that stays silent, two plugins that both match
  the content \<^verbatim>\<open>status\<close>, and an adapter.
\<close>

definition exactly :: "string \<Rightarrow> string \<Rightarrow> string list" where
  "exactly pattern content = (if content = pattern then [content] else [])"

definition reply :: "string \<Rightarrow> CmdFn" where
  "reply text d = d\<lparr>response := text\<rparr>"

definition silent :: CmdFn where
  "silent d = d"

definition alphaPlugin :: Plugin where
  "alphaPlugin =
     \<lparr>plg_Name = ''alpha'',
      CmdManifest =
        [(''^status$'', \<lparr>FindStringSubmatch = exactly ''status'', cl_CmdFn = reply ''alpha ok''\<rparr>),
         (''^ping$'', \<lparr>FindStringSubmatch = exactly ''ping'', cl_CmdFn = reply ''pong''\<rparr>)]\<rparr>"

definition betaPlugin :: Plugin where
  "betaPlugin =
     \<lparr>plg_Name = ''beta'',
      CmdManifest =
        [(''^status$'', \<lparr>FindStringSubmatch = exactly ''status'', cl_CmdFn = silent\<rparr>)]\<rparr>"

definition discord :: Adapter where
  "discord = \<lparr>adp_Name = ''discord'', adp_Instance = 1\<rparr>"

definition demoEngine :: Engine where
  "demoEngine =
     \<lparr>rawIngressBuffer = make_chan 2, ingressBuffer = make_chan 2, egressBuffer = make_chan 2,
      plugins = [''alpha'' \<mapsto> alphaPlugin, ''beta'' \<mapsto> betaPlugin],
      adapters = [''discord'' \<mapsto> discord]\<rparr>"

definition erik :: Originator where
  "erik = \<lparr>org_Identity = ''erik'', org_ChannelID = ''general'', org_AdapterName = ''discord''\<rparr>"

definition statusMsg :: ingressBufferMsg where
  "statusMsg = \<lparr>ibm_IngressMessage = \<lparr>im_Originator = erik, im_Content = ''status''\<rparr>\<rparr>"

text \<open>
  A configuration that enables two plugins and two adapters, and loaders under which both
  plugins report the name \<^verbatim>\<open>status\<close> and both adapters the name \<^verbatim>\<open>discord\<close>.
\<close>

definition statusOld :: Plugin where
  "statusOld =
     \<lparr>plg_Name = ''status'',
      CmdManifest =
        [(''^status$'', \<lparr>FindStringSubmatch = exactly ''status'', cl_CmdFn = reply ''old''\<rparr>)]\<rparr>"

definition statusNew :: Plugin where
  "statusNew =
     \<lparr>plg_Name = ''status'',
      CmdManifest =
        [(''^status$'', \<lparr>FindStringSubmatch = exactly ''status'', cl_CmdFn = reply ''new''\<rparr>)]\<rparr>"

definition discordTwo :: Adapter where
  "discordTwo = \<lparr>adp_Name = ''discord'', adp_Instance = 2\<rparr>"

definition demoConfig :: Config where
  "demoConfig =
     \<lparr>BufferSize = 2,
      GetPlugin = \<lparr>Dir = ''plugins'', Enabled = [''a'', ''b'']\<rparr>,
      GetAdapter = \<lparr>Dir = ''adapters'', Enabled = [''x'', ''y'']\<rparr>\<rparr>"

definition joinPath :: "string \<Rightarrow> string \<Rightarrow> string" where
  "joinPath dir file = dir @ ''/'' @ file"

definition demoLoadPlugin :: "string \<Rightarrow> error + Plugin" where
  "demoLoadPlugin file =
     (if file = ''plugins/a.so'' then Inr statusOld
      else if file = ''plugins/b.so'' then Inr statusNew
      else Inl ''plugin not found'')"

definition demoLoadAdapter :: "string \<Rightarrow> error + Adapter" where
  "demoLoadAdapter file =
     (if file = ''adapters/x.so'' then Inr discord
      else if file = ''adapters/y.so'' then Inr discordTwo
      else Inl ''adapter not found'')"

definition demoExternal :: External where
  "demoExternal =
     \<lparr>configNew = Inr demoConfig, filepathJoin = joinPath,
      LoadPlugin = demoLoadPlugin, LoadAdapter = demoLoadAdapter\<rparr>"

definition emptyEngine :: Engine where
  "emptyEngine =
     \<lparr>rawIngressBuffer = make_chan 2, ingressBuffer = make_chan 2, egressBuffer = make_chan 2,
      plugins = Map.empty, adapters = Map.empty\<rparr>"

text \<open>A raw message as the listener of the adapter hands it on.\<close>

definition demoRaw :: rawIngressBufferMsg where
  "demoRaw =
     \<lparr>rbm_AdapterName = adp_Name discord,
      rbm_RawIngressMessage =
        \<lparr>rim_Identity = ''erik'', rim_ChannelID = ''general'', rim_RawContent = ''!status''\<rparr>\<rparr>"

section \<open>Properties\<close>

subsection \<open>The conversion of a byte and the strip\<close>

lemma stringOfByte_ascii: "(of_char c :: nat) < 128 \<Longrightarrow> stringOfByte c = [c]"
  by (simp add: stringOfByte_def)

lemma stringOfByte_high:
  "128 \<le> (of_char c :: nat) \<Longrightarrow>
   stringOfByte c =
     [char_of (192 + (of_char c :: nat) div 64), char_of (128 + (of_char c :: nat) mod 64)]"
  by (simp add: stringOfByte_def Let_def)

lemma stringOfByte_bang: "stringOfByte (CHR ''!'') = ''!''"
  by code_simp


lemma stringOfByte_C3: "stringOfByte (CHR 0xC3) = [CHR 0xC3, CHR 0x83]"
  by code_simp

lemma parseRawContent_Cons: "parseRawContent (c # rest) = Inr rest"
  by (simp add: parseRawContent_def)

lemma parseRawContent_Nil: "parseRawContent [] = Inl SliceBoundsOutOfRange"
  by (simp add: parseRawContent_def)

subsection \<open>The four outcomes of \<^verbatim>\<open>handleRawIngress\<close>\<close>

lemma handleRawIngress_not_cmd:
  "\<not> isCmd (rim_RawContent (rbm_RawIngressMessage m)) \<Longrightarrow> handleRawIngress isCmd pfx m = []"
  by (simp add: handleRawIngress_def)

lemma handleRawIngress_empty:
  "isCmd (rim_RawContent (rbm_RawIngressMessage m)) \<Longrightarrow>
   rim_RawContent (rbm_RawIngressMessage m) = [] \<Longrightarrow>
   handleRawIngress isCmd pfx m = [Panicked IndexOutOfRange]"
  by (simp add: handleRawIngress_def)

lemma handleRawIngress_mismatch:
  "isCmd (rim_RawContent (rbm_RawIngressMessage m)) \<Longrightarrow>
   rim_RawContent (rbm_RawIngressMessage m) = c # rest \<Longrightarrow>
   stringOfByte c \<noteq> pfx \<Longrightarrow>
   handleRawIngress isCmd pfx m =
     [Logged WarnLevel
        ''raw content was flagged as a command, but does not contain trigger prefix, skipping...''
        [],
      Logged WarnLevel (rim_RawContent (rbm_RawIngressMessage m)) []]"
  by (simp add: handleRawIngress_def)

lemma handleRawIngress_forward:
  "isCmd (rim_RawContent (rbm_RawIngressMessage m)) \<Longrightarrow>
   rim_RawContent (rbm_RawIngressMessage m) = c # rest \<Longrightarrow>
   stringOfByte c = pfx \<Longrightarrow>
   handleRawIngress isCmd pfx m =
     [IngressSend
        \<lparr>ibm_IngressMessage =
           \<lparr>im_Originator =
              \<lparr>org_Identity = rim_Identity (rbm_RawIngressMessage m),
               org_ChannelID = rim_ChannelID (rbm_RawIngressMessage m),
               org_AdapterName = rbm_AdapterName m\<rparr>,
            im_Content = rest\<rparr>\<rparr>]"
  by (simp add: handleRawIngress_def parseRawContent_def Let_def)

lemma rawWith_fields:
  "rim_RawContent (rbm_RawIngressMessage (rawWith content)) = content"
  "rim_Identity (rbm_RawIngressMessage (rawWith content)) = ''erik''"
  "rim_ChannelID (rbm_RawIngressMessage (rawWith content)) = ''general''"
  "rbm_AdapterName (rawWith content) = ''discord''"
  by (simp_all add: rawWith_def)

subsection \<open>Raw ingress\<close>

text \<open>
  For a trigger prefix of one byte below 0x80 the check is the comparison of the first
  byte: a command that starts with the trigger yields exactly one ingress message, whose
  content is the raw content without that byte and whose originator is the identity and
  channel of the raw message with the name of the adapter that produced it.
\<close>

lemma handleRawIngress_ascii_trigger:
  assumes "isCmd (rim_RawContent (rbm_RawIngressMessage m))"
    and "rim_RawContent (rbm_RawIngressMessage m) = t # rest"
    and "(of_char t :: nat) < 128"
  shows "handleRawIngress isCmd [t] m =
     [IngressSend
        \<lparr>ibm_IngressMessage =
           \<lparr>im_Originator =
              \<lparr>org_Identity = rim_Identity (rbm_RawIngressMessage m),
               org_ChannelID = rim_ChannelID (rbm_RawIngressMessage m),
               org_AdapterName = rbm_AdapterName m\<rparr>,
            im_Content = rest\<rparr>\<rparr>]"
  using assms
  by (simp add: handleRawIngress_forward [where c = t and rest = rest] stringOfByte_ascii)

text \<open>
  Claim C1. A raw message classified as a command whose first character is the trigger
  prefix is to yield exactly one ingress message, without that character. The code does not
  do so for a trigger outside ASCII: with the trigger \<^verbatim>\<open>U+00E9\<close> (bytes C3 A9) and the
  content C3 A9 \<^verbatim>\<open>p\<close>, whose first character is the trigger, the check compares
  \<^verbatim>\<open>string(0xC3)\<close>, which is C3 83, with the trigger; the goroutine logs the two
  warnings and sends no ingress message.
\<close>

theorem nonascii_trigger_dropped:
  "take 2 [CHR 0xC3, CHR 0xA9, CHR ''p''] = [CHR 0xC3, CHR 0xA9] \<and>
   flagsEverything [CHR 0xC3, CHR 0xA9, CHR ''p''] \<and>
   handleRawIngress flagsEverything [CHR 0xC3, CHR 0xA9]
       (rawWith [CHR 0xC3, CHR 0xA9, CHR ''p'']) =
     [Logged WarnLevel
        ''raw content was flagged as a command, but does not contain trigger prefix, skipping...''
        [],
      Logged WarnLevel [CHR 0xC3, CHR 0xA9, CHR ''p''] []] \<and>
   filter isIngressSend
     (handleRawIngress flagsEverything [CHR 0xC3, CHR 0xA9]
        (rawWith [CHR 0xC3, CHR 0xA9, CHR ''p''])) = []"
  by (simp add: handleRawIngress_def rawWith_fields flagsEverything_def stringOfByte_C3)

text \<open>
  Claim C3. A raw message that is not classified as a command is dropped: the goroutine
  performs no effect at all, so it sends no ingress message and no egress message.
\<close>

theorem handleRawIngress_non_command_dropped:
  assumes "\<not> isCmd (rim_RawContent (rbm_RawIngressMessage m))"
  shows "handleRawIngress isCmd adapterCmdTriggerPrefix m = []"
  using assms by (rule handleRawIngress_not_cmd)

theorem handleRawIngress_non_command_dropped_witness:
  "\<not> flagsBang ''hello'' \<and> handleRawIngress flagsBang ''!'' (rawWith ''hello'') = []"
  using handleRawIngress_non_command_dropped
    [where isCmd = flagsBang and m = "rawWith ''hello''" and adapterCmdTriggerPrefix = "''!''"]
  by (simp add: flagsBang_def rawWith_fields)




text \<open>
  Claim C6. Every raw message yields at most one ingress message, and it yields one
  exactly when it is classified as a command, is not empty and passes the trigger check.
\<close>

theorem handleRawIngress_at_most_one:
  "length (filter isIngressSend (handleRawIngress isCmd adapterCmdTriggerPrefix m)) \<le> 1 \<and>
   (length (filter isIngressSend (handleRawIngress isCmd adapterCmdTriggerPrefix m)) = 1) =
     (isCmd (rim_RawContent (rbm_RawIngressMessage m)) \<and>
      rim_RawContent (rbm_RawIngressMessage m) \<noteq> [] \<and>
      stringOfByte (rim_RawContent (rbm_RawIngressMessage m) ! 0) = adapterCmdTriggerPrefix)"
proof (cases "isCmd (rim_RawContent (rbm_RawIngressMessage m))")
  case False
  then show ?thesis by (simp add: handleRawIngress_not_cmd)
next
  case cmd: True
  show ?thesis
  proof (cases "rim_RawContent (rbm_RawIngressMessage m)")
    case Nil
    with cmd show ?thesis by (simp add: handleRawIngress_empty)
  next
    case (Cons c rest)
    show ?thesis
    proof (cases "stringOfByte c = adapterCmdTriggerPrefix")
      case True
      from cmd Cons True show ?thesis
        by (simp add: handleRawIngress_forward [where c = c and rest = rest])
    next
      case False
      from cmd Cons False show ?thesis
        by (simp add: handleRawIngress_mismatch [where c = c and rest = rest])
    qed
  qed
qed

theorem handleRawIngress_at_most_one_witness:
  "length (filter isIngressSend (handleRawIngress flagsBang ''!'' (rawWith ''!status''))) = 1"
  using handleRawIngress_at_most_one
    [where isCmd = flagsBang and m = "rawWith ''!status''" and adapterCmdTriggerPrefix = "''!''"]
  by (simp add: flagsBang_def rawWith_fields stringOfByte_bang)

text \<open>
  Claim C9. The trigger check reads \<^verbatim>\<open>RawContent[0]\<close> with no guard on the length. The
  goroutine panics exactly when the classifier flags an empty content, and the panic is
  then the index out of range; the strip alone fails exactly on the empty string. On a
  non-empty content neither access is out of range.
\<close>

theorem rawContent_index_guard:
  "(filter isPanic (handleRawIngress isCmd adapterCmdTriggerPrefix m) \<noteq> []) =
     (isCmd (rim_RawContent (rbm_RawIngressMessage m)) \<and>
      rim_RawContent (rbm_RawIngressMessage m) = []) \<and>
   (isCmd (rim_RawContent (rbm_RawIngressMessage m)) \<and>
    rim_RawContent (rbm_RawIngressMessage m) = [] \<longrightarrow>
      handleRawIngress isCmd adapterCmdTriggerPrefix m = [Panicked IndexOutOfRange]) \<and>
   (parseRawContent rawContent = Inl SliceBoundsOutOfRange) = (rawContent = []) \<and>
   (rawContent \<noteq> [] \<longrightarrow> parseRawContent rawContent = Inr (tl rawContent))"
proof -
  have panics:
    "(filter isPanic (handleRawIngress isCmd adapterCmdTriggerPrefix m) \<noteq> []) =
       (isCmd (rim_RawContent (rbm_RawIngressMessage m)) \<and>
        rim_RawContent (rbm_RawIngressMessage m) = [])"
  proof (cases "isCmd (rim_RawContent (rbm_RawIngressMessage m))")
    case False
    then show ?thesis by (simp add: handleRawIngress_not_cmd)
  next
    case cmd: True
    show ?thesis
    proof (cases "rim_RawContent (rbm_RawIngressMessage m)")
      case Nil
      with cmd show ?thesis by (simp add: handleRawIngress_empty)
    next
      case (Cons c rest)
      show ?thesis
      proof (cases "stringOfByte c = adapterCmdTriggerPrefix")
        case True
        from cmd Cons True show ?thesis
          by (simp add: handleRawIngress_forward [where c = c and rest = rest])
      next
        case False
        from cmd Cons False show ?thesis
          by (simp add: handleRawIngress_mismatch [where c = c and rest = rest])
      qed
    qed
  qed
  have strip: "(parseRawContent rawContent = Inl SliceBoundsOutOfRange) = (rawContent = [])"
    by (cases rawContent) (simp_all add: parseRawContent_Nil parseRawContent_Cons)
  have strip_ok: "rawContent \<noteq> [] \<longrightarrow> parseRawContent rawContent = Inr (tl rawContent)"
    by (cases rawContent) (simp_all add: parseRawContent_Cons)
  have out_of_range:
    "isCmd (rim_RawContent (rbm_RawIngressMessage m)) \<and>
     rim_RawContent (rbm_RawIngressMessage m) = [] \<longrightarrow>
       handleRawIngress isCmd adapterCmdTriggerPrefix m = [Panicked IndexOutOfRange]"
    using handleRawIngress_empty [where isCmd = isCmd and m = m] by blast
  show ?thesis
    by (rule conjI [OF panics conjI [OF out_of_range conjI [OF strip strip_ok]]])
qed

theorem rawContent_index_guard_witness:
  "flagsEverything [] \<and>
   handleRawIngress flagsEverything ''!'' (rawWith []) = [Panicked IndexOutOfRange] \<and>
   parseRawContent ''!ping'' = Inr ''ping''"
  using rawContent_index_guard
    [where isCmd = flagsEverything and m = "rawWith []" and adapterCmdTriggerPrefix = "''!''"
       and rawContent = "''!ping''"]
  by (simp add: flagsEverything_def rawWith_fields)

text \<open>
  Claim C10. The comparison and the strip are to work on the first byte, so that a first
  character of several bytes is never matched. The code matches one: with the trigger
  \<^verbatim>\<open>U+00C3\<close> (bytes C3 83) a content that starts with that character passes the check,
  because \<^verbatim>\<open>string(0xC3)\<close> is the two-byte encoding of \<^verbatim>\<open>U+00C3\<close> and not the byte
  C3. The strip then removes the byte C3 only, and the content forwarded starts with the
  byte 83 of the trigger.
\<close>

theorem multibyte_trigger_half_stripped:
  "take 2 [CHR 0xC3, CHR 0x83, CHR ''p''] = [CHR 0xC3, CHR 0x83] \<and>
   [CHR 0xC3, CHR 0x83] \<noteq> [[CHR 0xC3, CHR 0x83, CHR ''p''] ! 0] \<and>
   stringOfByte ([CHR 0xC3, CHR 0x83, CHR ''p''] ! 0) = [CHR 0xC3, CHR 0x83] \<and>
   handleRawIngress flagsEverything [CHR 0xC3, CHR 0x83]
       (rawWith [CHR 0xC3, CHR 0x83, CHR ''p'']) =
     [IngressSend
        \<lparr>ibm_IngressMessage =
           \<lparr>im_Originator =
              \<lparr>org_Identity = ''erik'', org_ChannelID = ''general'',
               org_AdapterName = ''discord''\<rparr>,
            im_Content = [CHR 0x83, CHR ''p'']\<rparr>\<rparr>]"
  by (simp add: handleRawIngress_def rawWith_fields flagsEverything_def stringOfByte_C3
      parseRawContent_def)

subsection \<open>Ingress dispatch\<close>

lemma length_rangeCmdManifest:
  "length (rangeCmdManifest matches manifest content) =
     length matches +
     length (filter (\<lambda>(cmdName, cmdLink). patternMatches cmdLink content) manifest)"
proof (induction manifest arbitrary: matches)
  case Nil
  show ?case by simp
next
  case (Cons entry manifest)
  obtain cmdName cmdLink where entry: "entry = (cmdName, cmdLink)"
    by (cases entry)
  show ?case
    by (simp add: entry Cons.IH patternMatches_def Let_def)
qed

lemma length_rangePlugins:
  "length (rangePlugins matches visited content) =
     length matches + sum_list (map (\<lambda>plugin. matchCount plugin content) visited)"
  by (induction visited arbitrary: matches)
     (simp_all add: length_rangeCmdManifest matchCount_def)

lemma rangeValues_in_dom:
  "set visit \<subseteq> dom m \<Longrightarrow> rangeValues m visit = map (\<lambda>k. the (m k)) visit"
  by (induction visit) (auto simp: rangeValues_def List.map_filter_simps)

lemma sum_rangeValues:
  assumes "rangeOrder m visit"
  shows "sum_list (map f (rangeValues m visit)) = (\<Sum>k\<in>dom m. f (the (m k)))"
proof -
  from assms have d: "distinct visit" and s: "set visit = dom m"
    by (simp_all add: rangeOrder_def)
  from s have "rangeValues m visit = map (\<lambda>k. the (m k)) visit"
    by (simp add: rangeValues_in_dom)
  then have "sum_list (map f (rangeValues m visit)) = sum_list (map (\<lambda>k. f (the (m k))) visit)"
    by (simp add: comp_def)
  also have "\<dots> = (\<Sum>k\<in>set visit. f (the (m k)))"
    using d by (rule sum_list_distinct_conv_sum_set)
  finally show ?thesis by (simp add: s)
qed

lemma calls_rangeCmdMatches:
  "length (filter isHandlerCall (rangeCmdMatches im matches)) = length matches"
  by (induction matches) (simp_all add: Let_def)

lemma sends_rangeCmdMatches:
  "length (filter isEgressSend (rangeCmdMatches im matches)) =
     length (filter replied (rangeCmdMatches im matches))"
  by (induction matches) (simp_all add: Let_def)

lemma egress_rangeCmdMatches:
  "EgressSend ebm \<in> set (rangeCmdMatches im matches) \<Longrightarrow>
   ebm_Originator ebm = im_Originator im \<and>
   em_ChannelID (ebm_EgressMessage ebm) = org_ChannelID (im_Originator im)"
  by (induction matches) (auto simp: Let_def split: if_splits)


lemma demo_order: "rangeOrder (plugins demoEngine) [''beta'', ''alpha'']"
  by (auto simp: rangeOrder_def demoEngine_def)

lemma demo_handleIngress:
  "handleIngress demoEngine [''beta'', ''alpha''] statusMsg =
     [Logged DebugLevel ''Engine::handleIngress: %+v''
        [ArgIngressMessage \<lparr>im_Originator = erik, im_Content = ''status''\<rparr>],
      HandlerCall
        \<lparr>cd_IngressMessage = \<lparr>im_Originator = erik, im_Content = ''status''\<rparr>,
         cd_Submatches = [''status''], response = []\<rparr>,
      HandlerCall
        \<lparr>cd_IngressMessage = \<lparr>im_Originator = erik, im_Content = ''status''\<rparr>,
         cd_Submatches = [''status''], response = ''alpha ok''\<rparr>,
      EgressSend
        \<lparr>ebm_Originator = erik,
         ebm_EgressMessage = \<lparr>em_ChannelID = ''general'', em_Content = ''alpha ok''\<rparr>\<rparr>]"
  by (simp add: handleIngress_def applyCmdManifests_def rangeValues_def demoEngine_def
      statusMsg_def alphaPlugin_def betaPlugin_def exactly_def reply_def silent_def
      NewCmdDelegate_def erik_def Let_def)

text \<open>
  Claim C2. Whatever the order in which the plugins are visited, the number of handler
  calls for an ingress message is the number of manifest entries, over all loaded plugins,
  whose pattern matches the content, and the number of egress messages sent is the number
  of those calls that left a non-empty response.
\<close>

theorem handleIngress_counts:
  assumes "rangeOrder (plugins e) visit"
  shows "length (filter isHandlerCall (handleIngress e visit ibm)) =
           (\<Sum>name\<in>dom (plugins e).
              matchCount (the (plugins e name)) (im_Content (ibm_IngressMessage ibm))) \<and>
         length (filter isEgressSend (handleIngress e visit ibm)) =
           length (filter replied (handleIngress e visit ibm))"
proof -
  let ?content = "im_Content (ibm_IngressMessage ibm)"
  have "length (filter isHandlerCall (handleIngress e visit ibm)) =
          length (applyCmdManifests e visit ?content)"
    by (simp add: handleIngress_def Let_def calls_rangeCmdMatches)
  also have "\<dots> = sum_list (map (\<lambda>plugin. matchCount plugin ?content)
                       (rangeValues (plugins e) visit))"
    by (simp add: applyCmdManifests_def length_rangePlugins)
  also have "\<dots> = (\<Sum>name\<in>dom (plugins e). matchCount (the (plugins e name)) ?content)"
    using assms by (rule sum_rangeValues)
  finally have calls:
    "length (filter isHandlerCall (handleIngress e visit ibm)) =
       (\<Sum>name\<in>dom (plugins e). matchCount (the (plugins e name)) ?content)" .
  have sends:
    "length (filter isEgressSend (handleIngress e visit ibm)) =
       length (filter replied (handleIngress e visit ibm))"
    by (simp add: handleIngress_def Let_def sends_rangeCmdMatches)
  show ?thesis by (rule conjI [OF calls sends])
qed

theorem handleIngress_counts_witness:
  "rangeOrder (plugins demoEngine) [''beta'', ''alpha''] \<and>
   (\<Sum>name\<in>dom (plugins demoEngine).
      matchCount (the (plugins demoEngine name)) ''status'') = 2 \<and>
   length (filter isHandlerCall (handleIngress demoEngine [''beta'', ''alpha''] statusMsg)) = 2 \<and>
   length (filter isEgressSend (handleIngress demoEngine [''beta'', ''alpha''] statusMsg)) = 1"
proof -
  have content: "im_Content (ibm_IngressMessage statusMsg) = ''status''"
    by (simp add: statusMsg_def)
  have two: "length (filter isHandlerCall
               (handleIngress demoEngine [''beta'', ''alpha''] statusMsg)) = 2"
    by (simp add: demo_handleIngress)
  have one: "length (filter replied
               (handleIngress demoEngine [''beta'', ''alpha''] statusMsg)) = 1"
    by (simp add: demo_handleIngress)
  show ?thesis
    using handleIngress_counts [OF demo_order, of statusMsg] demo_order two one
    by (simp add: content)
qed

text \<open>
  Claim C5. Every egress message that the dispatcher sends for an ingress message carries
  the originator of that message and its channel. For such a message the egress handler
  calls \<^verbatim>\<open>SendMessage\<close> on no adapter but the one registered under the adapter name of the
  originator, with that message: once when the name is registered, never when it is not.
\<close>

theorem egress_routed_to_originator:
  assumes "EgressSend ebm \<in> set (handleIngress e visit ibm)"
  shows "ebm_Originator ebm = im_Originator (ibm_IngressMessage ibm) \<and>
         em_ChannelID (ebm_EgressMessage ebm) =
           org_ChannelID (im_Originator (ibm_IngressMessage ibm)) \<and>
         (\<forall>a msg. SendMessageCall a msg \<in> set (handleEgress e' ebm) \<longrightarrow>
            adapters e' (org_AdapterName (im_Originator (ibm_IngressMessage ibm))) = Some a \<and>
            msg = ebm_EgressMessage ebm) \<and>
         (\<forall>a. adapters e' (org_AdapterName (im_Originator (ibm_IngressMessage ibm))) = Some a \<longrightarrow>
            filter isSendMessageCall (handleEgress e' ebm) =
              [SendMessageCall a (ebm_EgressMessage ebm)]) \<and>
         (adapters e' (org_AdapterName (im_Originator (ibm_IngressMessage ibm))) = None \<longrightarrow>
            filter isSendMessageCall (handleEgress e' ebm) = [])"
proof -
  from assms
  have "EgressSend ebm \<in> set (rangeCmdMatches (ibm_IngressMessage ibm)
          (applyCmdManifests e visit (im_Content (ibm_IngressMessage ibm))))"
    by (simp add: handleIngress_def Let_def)
  then have org: "ebm_Originator ebm = im_Originator (ibm_IngressMessage ibm)"
    and chan: "em_ChannelID (ebm_EgressMessage ebm) =
                 org_ChannelID (im_Originator (ibm_IngressMessage ibm))"
    by (auto dest: egress_rangeCmdMatches)
  have only:
    "\<forall>a msg. SendMessageCall a msg \<in> set (handleEgress e' ebm) \<longrightarrow>
       adapters e' (org_AdapterName (im_Originator (ibm_IngressMessage ibm))) = Some a \<and>
       msg = ebm_EgressMessage ebm"
    by (auto simp: handleEgress_def org split: option.splits)
  have once:
    "\<forall>a. adapters e' (org_AdapterName (im_Originator (ibm_IngressMessage ibm))) = Some a \<longrightarrow>
       filter isSendMessageCall (handleEgress e' ebm) =
         [SendMessageCall a (ebm_EgressMessage ebm)]"
    by (simp add: handleEgress_def org)
  have never:
    "adapters e' (org_AdapterName (im_Originator (ibm_IngressMessage ibm))) = None \<longrightarrow>
       filter isSendMessageCall (handleEgress e' ebm) = []"
    by (simp add: handleEgress_def org)
  show ?thesis
    by (rule conjI [OF org conjI [OF chan conjI [OF only conjI [OF once never]]]])
qed

theorem egress_routed_to_originator_witness:
  "EgressSend
     \<lparr>ebm_Originator = erik,
      ebm_EgressMessage = \<lparr>em_ChannelID = ''general'', em_Content = ''alpha ok''\<rparr>\<rparr>
     \<in> set (handleIngress demoEngine [''beta'', ''alpha''] statusMsg) \<and>
   adapters demoEngine (org_AdapterName erik) = Some discord \<and>
   filter isSendMessageCall
     (handleEgress demoEngine
        \<lparr>ebm_Originator = erik,
         ebm_EgressMessage = \<lparr>em_ChannelID = ''general'', em_Content = ''alpha ok''\<rparr>\<rparr>) =
     [SendMessageCall discord \<lparr>em_ChannelID = ''general'', em_Content = ''alpha ok''\<rparr>]"
proof -
  have sent:
    "EgressSend
       \<lparr>ebm_Originator = erik,
        ebm_EgressMessage = \<lparr>em_ChannelID = ''general'', em_Content = ''alpha ok''\<rparr>\<rparr>
       \<in> set (handleIngress demoEngine [''beta'', ''alpha''] statusMsg)"
    by (simp add: demo_handleIngress)
  have registered: "adapters demoEngine (org_AdapterName erik) = Some discord"
    by (simp add: demoEngine_def erik_def)
  have origin: "im_Originator (ibm_IngressMessage statusMsg) = erik"
    by (simp add: statusMsg_def)
  show ?thesis
    using egress_routed_to_originator [OF sent, where e' = demoEngine] sent registered
    by (simp add: origin erik_def)
qed

subsection \<open>Loading\<close>

lemma foldl_upd_last:
  "\<forall>p\<in>set after. name p \<noteq> name later \<Longrightarrow>
   foldl (\<lambda>m p. m(name p \<mapsto> p)) m (before @ later # after) (name later) = Some later"
proof (induction after rule: rev_induct)
  case Nil
  show ?case by simp
next
  case (snoc p after)
  let ?f = "\<lambda>m p. m(name p \<mapsto> p)"
  from snoc.prems have ne: "name later \<noteq> name p" by auto
  from snoc.prems have "\<forall>p\<in>set after. name p \<noteq> name later" by simp
  then have ih: "foldl ?f m (before @ later # after) (name later) = Some later"
    by (rule snoc.IH)
  have "before @ later # after @ [p] = (before @ later # after) @ [p]" by simp
  then have "foldl ?f m (before @ later # after @ [p]) =
               (foldl ?f m (before @ later # after))(name p \<mapsto> p)"
    by (simp only: foldl_append foldl.simps)
  moreover have "((foldl ?f m (before @ later # after))(name p \<mapsto> p)) (name later) =
               foldl ?f m (before @ later # after) (name later)"
    by (rule fun_upd_other [OF ne])
  ultimately have "foldl ?f m (before @ later # after @ [p]) (name later) = Some later"
    using ih by (simp only:)
  then show ?case .
qed

lemma rangeEnabledPlugins_loaded:
  "map (\<lambda>pluginName. LoadPlugin x (filepathJoin x dir (pluginName @ ''.so''))) names =
     map Inr loaded \<Longrightarrow>
   rangeEnabledPlugins x dir e names =
     (e\<lparr>plugins := foldl (\<lambda>m p. m(plg_Name p \<mapsto> p)) (plugins e) loaded\<rparr>, None)"
proof (induction names arbitrary: e loaded)
  case Nil
  then show ?case by simp
next
  case (Cons pluginName names)
  then obtain p rest where loaded: "loaded = p # rest"
    and p: "LoadPlugin x (filepathJoin x dir (pluginName @ ''.so'')) = Inr p"
    and rest: "map (\<lambda>pluginName. LoadPlugin x (filepathJoin x dir (pluginName @ ''.so''))) names =
                 map Inr rest"
    by (cases loaded) auto
  from Cons.IH [OF rest] show ?case
    by (simp add: loaded p)
qed

lemma rangeEnabledAdapters_loaded:
  "map (\<lambda>adapterName. LoadAdapter x (filepathJoin x dir (adapterName @ ''.so''))) names =
     map Inr loaded \<Longrightarrow>
   rangeEnabledAdapters x dir e names =
     (e\<lparr>adapters := foldl (\<lambda>m a. m(adp_Name a \<mapsto> a)) (adapters e) loaded\<rparr>, None)"
proof (induction names arbitrary: e loaded)
  case Nil
  then show ?case by simp
next
  case (Cons adapterName names)
  then obtain a rest where loaded: "loaded = a # rest"
    and a: "LoadAdapter x (filepathJoin x dir (adapterName @ ''.so'')) = Inr a"
    and rest: "map (\<lambda>adapterName. LoadAdapter x (filepathJoin x dir (adapterName @ ''.so''))) names =
                 map Inr rest"
    by (cases loaded) auto
  from Cons.IH [OF rest] show ?case
    by (simp add: loaded a)
qed

lemma loadPlugins_loaded:
  assumes "configNew x = Inr c"
    and "map (\<lambda>pluginName. LoadPlugin x (filepathJoin x (Dir (GetPlugin c)) (pluginName @ ''.so'')))
           (Enabled (GetPlugin c)) = map Inr loaded"
  shows "loadPlugins x e =
           (e\<lparr>plugins := foldl (\<lambda>m p. m(plg_Name p \<mapsto> p)) (plugins e) loaded\<rparr>, None)"
  using assms by (simp add: loadPlugins_def rangeEnabledPlugins_loaded)

lemma loadAdapters_loaded:
  assumes "configNew x = Inr c"
    and "map (\<lambda>adapterName. LoadAdapter x (filepathJoin x (Dir (GetAdapter c)) (adapterName @ ''.so'')))
           (Enabled (GetAdapter c)) = map Inr loaded"
  shows "loadAdapters x e =
           (e\<lparr>adapters := foldl (\<lambda>m a. m(adp_Name a \<mapsto> a)) (adapters e) loaded\<rparr>, None)"
  using assms by (simp add: loadAdapters_def rangeEnabledAdapters_loaded)

text \<open>
  Claim C8. When the configuration is read and every enabled plugin loads, \<^verbatim>\<open>loadPlugins\<close>
  returns no error, and the entry stored under a name is the plugin loaded last under
  that name: it replaces whatever an earlier load stored there. The same holds for
  \<^verbatim>\<open>loadAdapters\<close>.
\<close>

theorem load_name_collision:
  "(configNew x = Inr c \<and>
    map (\<lambda>pluginName. LoadPlugin x (filepathJoin x (Dir (GetPlugin c)) (pluginName @ ''.so'')))
      (Enabled (GetPlugin c)) = map Inr (before @ earlier # between @ later # after) \<and>
    plg_Name earlier = plg_Name later \<and>
    (\<forall>p\<in>set after. plg_Name p \<noteq> plg_Name later) \<longrightarrow>
      snd (loadPlugins x e) = None \<and>
      plugins (fst (loadPlugins x e)) (plg_Name earlier) = Some later) \<and>
   (configNew x = Inr c \<and>
    map (\<lambda>adapterName. LoadAdapter x (filepathJoin x (Dir (GetAdapter c)) (adapterName @ ''.so'')))
      (Enabled (GetAdapter c)) = map Inr (before' @ earlier' # between' @ later' # after') \<and>
    adp_Name earlier' = adp_Name later' \<and>
    (\<forall>a\<in>set after'. adp_Name a \<noteq> adp_Name later') \<longrightarrow>
      snd (loadAdapters x e) = None \<and>
      adapters (fst (loadAdapters x e)) (adp_Name earlier') = Some later')"
proof (intro conjI impI; elim conjE)
  assume c: "configNew x = Inr c"
    and l: "map (\<lambda>pluginName. LoadPlugin x (filepathJoin x (Dir (GetPlugin c)) (pluginName @ ''.so'')))
      (Enabled (GetPlugin c)) = map Inr (before @ earlier # between @ later # after)"
    and n: "plg_Name earlier = plg_Name later"
    and a: "\<forall>p\<in>set after. plg_Name p \<noteq> plg_Name later"
  from loadPlugins_loaded [OF c l]
  show "snd (loadPlugins x e) = None" by simp
  have "foldl (\<lambda>m p. m(plg_Name p \<mapsto> p)) (plugins e)
          ((before @ earlier # between) @ later # after) (plg_Name later) = Some later"
    using a by (rule foldl_upd_last)
  with loadPlugins_loaded [OF c l] n
  show "plugins (fst (loadPlugins x e)) (plg_Name earlier) = Some later" by simp
next
  assume c: "configNew x = Inr c"
    and l: "map (\<lambda>adapterName. LoadAdapter x (filepathJoin x (Dir (GetAdapter c)) (adapterName @ ''.so'')))
      (Enabled (GetAdapter c)) = map Inr (before' @ earlier' # between' @ later' # after')"
    and n: "adp_Name earlier' = adp_Name later'"
    and a: "\<forall>a\<in>set after'. adp_Name a \<noteq> adp_Name later'"
  from loadAdapters_loaded [OF c l]
  show "snd (loadAdapters x e) = None" by simp
  have "foldl (\<lambda>m a. m(adp_Name a \<mapsto> a)) (adapters e)
          ((before' @ earlier' # between') @ later' # after') (adp_Name later') = Some later'"
    using a by (rule foldl_upd_last)
  with loadAdapters_loaded [OF c l] n
  show "adapters (fst (loadAdapters x e)) (adp_Name earlier') = Some later'" by simp
qed

theorem load_name_collision_witness:
  "plg_Name statusOld = plg_Name statusNew \<and> statusOld \<noteq> statusNew \<and>
   snd (loadPlugins demoExternal emptyEngine) = None \<and>
   plugins (fst (loadPlugins demoExternal emptyEngine)) ''status'' = Some statusNew \<and>
   adp_Name discord = adp_Name discordTwo \<and> discord \<noteq> discordTwo \<and>
   snd (loadAdapters demoExternal emptyEngine) = None \<and>
   adapters (fst (loadAdapters demoExternal emptyEngine)) ''discord'' = Some discordTwo"
proof -
  have c: "configNew demoExternal = Inr demoConfig"
    by (simp add: demoExternal_def)
  have lp: "map (\<lambda>pluginName. LoadPlugin demoExternal
                 (filepathJoin demoExternal (Dir (GetPlugin demoConfig)) (pluginName @ ''.so'')))
              (Enabled (GetPlugin demoConfig)) = map Inr ([] @ statusOld # [] @ statusNew # [])"
    by (simp add: demoExternal_def demoConfig_def joinPath_def demoLoadPlugin_def)
  have la: "map (\<lambda>adapterName. LoadAdapter demoExternal
                 (filepathJoin demoExternal (Dir (GetAdapter demoConfig)) (adapterName @ ''.so'')))
              (Enabled (GetAdapter demoConfig)) = map Inr ([] @ discord # [] @ discordTwo # [])"
    by (simp add: demoExternal_def demoConfig_def joinPath_def demoLoadAdapter_def)
  have np: "plg_Name statusOld = plg_Name statusNew"
    by (simp add: statusOld_def statusNew_def)
  have na: "adp_Name discord = adp_Name discordTwo"
    by (simp add: discord_def discordTwo_def)
  have dp: "statusOld \<noteq> statusNew"
  proof
    assume "statusOld = statusNew"
    then have "map (\<lambda>(n, l). response (cl_CmdFn l (NewCmdDelegate \<lparr>im_Originator = erik, im_Content = []\<rparr> []))) (CmdManifest statusOld) =
               map (\<lambda>(n, l). response (cl_CmdFn l (NewCmdDelegate \<lparr>im_Originator = erik, im_Content = []\<rparr> []))) (CmdManifest statusNew)"
      by simp
    then show False
      by (simp add: statusOld_def statusNew_def reply_def)
  qed
  have da: "discord \<noteq> discordTwo"
    by (simp add: discord_def discordTwo_def)
  have name: "plg_Name statusOld = ''status''" "adp_Name discord = ''discord''"
    by (simp_all add: statusOld_def discord_def)
  show ?thesis
    using load_name_collision
      [where x = demoExternal and c = demoConfig and e = emptyEngine
         and before = "[]" and earlier = statusOld and between = "[]" and later = statusNew
         and after = "[]" and before' = "[]" and earlier' = discord and between' = "[]"
         and later' = discordTwo and after' = "[]"]
      c lp la np na dp da
    by (simp add: name)
qed

subsection \<open>The run phase\<close>

lemma extensions_kept:
  "plugins (engine (spawn w effects)) = plugins (engine w)"
  "adapters (engine (spawn w effects)) = adapters (engine w)"
  "plugins (engine (advance w i)) = plugins (engine w)"
  "adapters (engine (advance w i)) = adapters (engine w)"
  "plugins (engine (sendRawIngress w rm)) = plugins (engine w)"
  "adapters (engine (sendRawIngress w rm)) = adapters (engine w)"
  "plugins (engine (sendIngress w im)) = plugins (engine w)"
  "adapters (engine (sendIngress w im)) = adapters (engine w)"
  "plugins (engine (sendEgress w em)) = plugins (engine w)"
  "adapters (engine (sendEgress w em)) = adapters (engine w)"
  "plugins (engine (recvRawIngress w)) = plugins (engine w)"
  "adapters (engine (recvRawIngress w)) = adapters (engine w)"
  "plugins (engine (recvIngress w)) = plugins (engine w)"
  "adapters (engine (recvIngress w)) = adapters (engine w)"
  "plugins (engine (recvEgress w)) = plugins (engine w)"
  "adapters (engine (recvEgress w)) = adapters (engine w)"
  by (simp_all add: spawn_def advance_def sendRawIngress_def sendIngress_def sendEgress_def
      recvRawIngress_def recvIngress_def recvEgress_def)

lemma step_keeps_extensions:
  "step isCmd pfx w w' \<Longrightarrow>
   plugins (engine w') = plugins (engine w) \<and> adapters (engine w') = adapters (engine w)"
  by (induction rule: step.induct) (simp_all add: extensions_kept)

text \<open>
  Claim C7. No step of the running engine writes the plugins map or the adapters map:
  whatever the dispatch loop, the listeners and the goroutines of the three handlers do,
  both maps stay as \<^verbatim>\<open>Start\<close> found them. The maps are written by \<^verbatim>\<open>loadPlugins\<close> and
  \<^verbatim>\<open>loadAdapters\<close> only, which are no step of the run.
\<close>

theorem run_keeps_extensions:
  assumes "run isCmd adapterCmdTriggerPrefix w w'"
  shows "plugins (engine w') = plugins (engine w) \<and> adapters (engine w') = adapters (engine w)"
  using assms
proof (induction rule: run.induct)
  case (run_refl w)
  show ?case by simp
next
  case (run_step w w' w'')
  from step_keeps_extensions [OF run_step.hyps(2)] run_step.IH
  show ?case by simp
qed

lemma demo_run:
  "run flagsBang ''!'' (Start demoEngine [''discord''])
     (spawn (recvRawIngress (sendRawIngress (Start demoEngine [''discord'']) demoRaw))
        (handleRawIngress flagsBang ''!'' demoRaw))"
proof -
  let ?w0 = "Start demoEngine [''discord'']"
  let ?w1 = "sendRawIngress ?w0 demoRaw"
  have "step flagsBang ''!'' ?w0
          (sendRawIngress ?w0
             \<lparr>rbm_AdapterName = adp_Name discord,
              rbm_RawIngressMessage =
                \<lparr>rim_Identity = ''erik'', rim_ChannelID = ''general'',
                 rim_RawContent = ''!status''\<rparr>\<rparr>)"
    by (rule step.Relay)
       (simp_all add: Start_def demoEngine_def rangeValues_def canSend_def make_chan_def)
  then have s1: "step flagsBang ''!'' ?w0 ?w1"
    by (simp add: demoRaw_def)
  have "chan_queue (rawIngressBuffer (engine ?w1)) = demoRaw # []"
    by (simp add: sendRawIngress_def Start_def demoEngine_def push_def make_chan_def)
  moreover have "crashed ?w1 = None"
    by (simp add: sendRawIngress_def Start_def)
  ultimately have s2: "step flagsBang ''!'' ?w1
      (spawn (recvRawIngress ?w1) (handleRawIngress flagsBang ''!'' demoRaw))"
    by (rule step.SelectRawIngress [rotated])
  from run.run_step [OF run.run_step [OF run.run_refl s1] s2] show ?thesis .
qed

theorem run_keeps_extensions_witness:
  "run flagsBang ''!'' (Start demoEngine [''discord''])
     (spawn (recvRawIngress (sendRawIngress (Start demoEngine [''discord'']) demoRaw))
        (handleRawIngress flagsBang ''!'' demoRaw)) \<and>
   plugins (engine
     (spawn (recvRawIngress (sendRawIngress (Start demoEngine [''discord'']) demoRaw))
        (handleRawIngress flagsBang ''!'' demoRaw))) = plugins demoEngine \<and>
   adapters (engine
     (spawn (recvRawIngress (sendRawIngress (Start demoEngine [''discord'']) demoRaw))
        (handleRawIngress flagsBang ''!'' demoRaw))) = adapters demoEngine"
  using run_keeps_extensions [OF demo_run] demo_run
  by (simp add: Start_def)

end
